theory Spec2Isabelle
  imports Complex_Main "HOL-Library.Word"
begin

unbundle bit_operations_syntax

section \<open>Values of the host language\<close>

text \<open>
  The session core of Lumina (class \<open>LuminaSession\<close>) is written in TypeScript against
  the browser's audio interfaces. Numbers are modelled by the reals they denote: the
  samples of a \<open>Float32Array\<close> are finite binary fractions, and both scalings the code
  applies to them (times \<open>32768\<close>, and a 16-bit integer divided by \<open>32768.0\<close>) are exact
  in binary floating point. The output clock and the playback watermark are seconds on the
  same real line. Strings are lists of 8-bit characters, which is all that \<open>btoa\<close>
  produces and all that \<open>atob\<close> accepts.
\<close>

type_synonym int16 = "16 word"
type_synonym uint8 = "8 word"

datatype error =
    TypeError
  | RangeError
  | InvalidCharacterError
  | NotSupportedError
  | DeviceUnavailable
  | ChannelFailure

text \<open>
  Storing a number in an \<open>Int16Array\<close> applies the language's \<open>ToInt16\<close>: the number is
  truncated towards zero and reduced modulo \<open>2 ^ 16\<close> into the signed range.
\<close>

definition trunc :: "real \<Rightarrow> int" where
  "trunc x = (if x < 0 then \<lceil>x\<rceil> else \<lfloor>x\<rfloor>)"

definition ToInt16 :: "real \<Rightarrow> int16" where
  "ToInt16 x = word_of_int (trunc x)"

text \<open>
  \<open>new Uint8Array(int16.buffer)\<close> and \<open>new Int16Array(bytes.buffer)\<close> are two views of
  one buffer; on the little-endian hosts browsers run on, the low byte of each 16-bit
  element comes first. The \<open>Int16Array\<close> constructor raises \<open>RangeError\<close> on a buffer of
  odd byte length.
\<close>

fun Uint8Array_of_int16 :: "int16 list \<Rightarrow> uint8 list" where
  "Uint8Array_of_int16 [] = []"
| "Uint8Array_of_int16 (w # ws) = ucast w # ucast (drop_bit 8 w) # Uint8Array_of_int16 ws"

fun int16_view :: "uint8 list \<Rightarrow> int16 list" where
  "int16_view (lo # hi # bs) = (ucast lo OR push_bit 8 (ucast hi)) # int16_view bs"
| "int16_view _ = []"

definition Int16Array_of_bytes :: "uint8 list \<Rightarrow> error + int16 list" where
  "Int16Array_of_bytes bs = (if odd (length bs) then Inl RangeError else Inr (int16_view bs))"

definition fromCharCode :: "uint8 \<Rightarrow> char" where
  "fromCharCode b = char_of (unat b)"

definition charCodeAt :: "char \<Rightarrow> uint8" where
  "charCodeAt c = word_of_nat (of_char c)"

section \<open>Base64: \<open>btoa\<close> and \<open>atob\<close>\<close>

definition b64_alphabet :: string where
  "b64_alphabet = ''ABCDEFGHIJKLMNOPQRSTUVWXYZabcdefghijklmnopqrstuvwxyz0123456789+/''"

definition b64_char :: "nat \<Rightarrow> char" where
  "b64_char n = b64_alphabet ! n"

fun index_of :: "'a \<Rightarrow> 'a list \<Rightarrow> nat option" where
  "index_of x [] = None"
| "index_of x (y # ys) = (if x = y then Some 0 else map_option Suc (index_of x ys))"

definition b64_value :: "char \<Rightarrow> nat option" where
  "b64_value c = index_of c b64_alphabet"

text \<open>
  The six-bit groups of a byte string, three bytes to four groups; a last group of one or
  two bytes is filled up with zero bits.
\<close>

fun sextets :: "nat list \<Rightarrow> nat list" where
  "sextets [] = []"
| "sextets [a] = [a div 4, (a mod 4) * 16]"
| "sextets [a, b] = [a div 4, (a mod 4) * 16 + b div 16, (b mod 16) * 4]"
| "sextets (a # b # c # r) =
     [a div 4, (a mod 4) * 16 + b div 16, (b mod 16) * 4 + c div 64, c mod 64] @ sextets r"

definition padding :: "nat \<Rightarrow> string" where
  "padding n = replicate ((3 - n mod 3) mod 3) (CHR ''='')"

definition btoa :: "string \<Rightarrow> string" where
  "btoa s = map b64_char (sextets (map of_char s)) @ padding (length s)"

text \<open>
  \<open>atob\<close> is the forgiving decoder of the platform: ASCII whitespace is dropped, one or
  two trailing \<open>=\<close> are dropped when the length is a multiple of four, a remaining length
  of one modulo four or any character outside the alphabet raises
  \<open>InvalidCharacterError\<close> (here \<open>None\<close>), and leftover bits of a short last group are
  discarded.
\<close>

definition is_ascii_whitespace :: "char \<Rightarrow> bool" where
  "is_ascii_whitespace c = (of_char c \<in> {9, 10, 12, 13, 32 :: nat})"

fun strip_padding_rev :: "string \<Rightarrow> string" where
  "strip_padding_rev (p # q # r) =
     (if p = CHR ''='' then (if q = CHR ''='' then r else q # r) else p # q # r)"
| "strip_padding_rev [p] = (if p = CHR ''='' then [] else [p])"
| "strip_padding_rev [] = []"

definition strip_padding :: "string \<Rightarrow> string" where
  "strip_padding s = (if length s mod 4 = 0 then rev (strip_padding_rev (rev s)) else s)"

fun octets :: "nat list \<Rightarrow> nat list" where
  "octets (p # q # r # s # vs) =
     [p * 4 + q div 16, (q mod 16) * 16 + r div 4, (r mod 4) * 64 + s] @ octets vs"
| "octets [p, q, r] = [p * 4 + q div 16, (q mod 16) * 16 + r div 4]"
| "octets [p, q] = [p * 4 + q div 16]"
| "octets _ = []"

definition atob :: "string \<Rightarrow> string option" where
  "atob s =
     (let d = strip_padding (filter (\<lambda>c. \<not> is_ascii_whitespace c) s) in
      if length d mod 4 = 1 then None
      else case those (map b64_value d) of
             None \<Rightarrow> None
           | Some vs \<Rightarrow> Some (map char_of (octets vs)))"

section \<open>PCM16 framing: \<open>createBlob\<close>, \<open>encode\<close>, \<open>decodeAudioData\<close>\<close>

record Blob =
  data :: string
  mimeType :: string

definition encode :: "uint8 list \<Rightarrow> string" where
  "encode bytes = btoa (map fromCharCode bytes)"

text \<open>The loop of \<open>createBlob\<close>: \<open>int16[i] = data[i] * 32768\<close> for every index.\<close>

definition quantize :: "real list \<Rightarrow> int16 list" where
  "quantize d = map (\<lambda>s. ToInt16 (s * 32768)) d"

definition createBlob :: "real list \<Rightarrow> Blob" where
  "createBlob d =
     (let int16 = quantize d
      in \<lparr>data = encode (Uint8Array_of_int16 int16), mimeType = ''audio/pcm;rate=16000''\<rparr>)"

record AudioBuffer =
  sampleRate :: nat
  channelData :: "real list"

definition duration :: "AudioBuffer \<Rightarrow> real" where
  "duration b = real (length (channelData b)) / real (sampleRate b)"

text \<open>
  \<open>ctx.createBuffer(1, frameCount, 24000)\<close>: the audio interface refuses a buffer of zero
  frames with \<open>NotSupportedError\<close>; otherwise the buffer is silent until it is filled.
\<close>

definition createBuffer :: "nat \<Rightarrow> nat \<Rightarrow> error + AudioBuffer" where
  "createBuffer frameCount rate =
     (if frameCount = 0 then Inl NotSupportedError
      else Inr \<lparr>sampleRate = rate, channelData = replicate frameCount 0\<rparr>)"

definition decodeAudioData :: "string \<Rightarrow> error + AudioBuffer" where
  "decodeAudioData base64 =
     (case atob base64 of
        None \<Rightarrow> Inl InvalidCharacterError
      | Some binaryString \<Rightarrow>
          (case Int16Array_of_bytes (map charCodeAt binaryString) of
             Inl e \<Rightarrow> Inl e
           | Inr dataInt16 \<Rightarrow>
               (case createBuffer (length dataInt16) 24000 of
                  Inl e \<Rightarrow> Inl e
                | Inr buffer \<Rightarrow>
                    Inr (buffer\<lparr>channelData :=
                           map (\<lambda>w. real_of_int (sint w) / 32768) dataInt16\<rparr>))))"


section \<open>The session\<close>

text \<open>
  \<open>promise\<close> is the outcome of the channel promise returned by
  \<open>client.live.connect\<close>, as an \<open>await\<close> or a \<open>then\<close> observes it: it is fulfilled,
  it is rejected, or it never settles (\<open>Pending\<close>). The audio contexts,
  the capture nodes and the device tracks are each referenced by the session alone, so a
  field holds \<open>None\<close> for \<open>null\<close> and otherwise the state of the object it refers to.
  \<open>sources\<close> is the insertion-ordered set of playback nodes, each named by the number
  it received when it was created; \<open>allocated\<close> is the next such number.
\<close>

datatype promise = Pending | Fulfilled | Rejected

datatype contextState = Running | Closed

datatype trackState = Live | Ended

datatype wiring = Wired | Unwired

datatype device = Input | Output

record LuminaSession =
  session :: "promise option"
  inputContext :: "contextState option"
  outputContext :: "contextState option"
  inputProcessor :: "wiring option"
  source :: "wiring option"
  stream :: "trackState list option"
  nextStartTime :: real
  sources :: "nat list"
  allocated :: nat

text \<open>Calls that leave the session: the callbacks, the channel, the console, the devices.\<close>

datatype effect =
    StatusChange string
  | ScreenUpdate "string option" "string option"
  | SendToolResponse "string option" "string option" string
  | SendRealtimeInput Blob
  | ConsoleError string error
  | ChannelConnect
  | GraphConnect
  | MediaSourceDisconnect
  | ProcessorDisconnect
  | TrackStop nat
  | ContextClose device
  | SourceStart nat AudioBuffer real
  | SourceStop nat

text \<open>
  An asynchronous method yields the calls it made, the error its promise rejects with
  (if any), and the session it leaves behind.
\<close>

type_synonym result = "(effect list \<times> error option) \<times> LuminaSession"

definition new_LuminaSession :: LuminaSession where
  "new_LuminaSession =
     \<lparr>session = None, inputContext = None, outputContext = None, inputProcessor = None,
      source = None, stream = None, nextStartTime = 0, sources = [], allocated = 0\<rparr>"

text \<open>\<open>sessionPromise.then(f)\<close>: \<open>f\<close> runs only if the promise is fulfilled.\<close>

definition thenCall :: "promise \<Rightarrow> effect list \<Rightarrow> effect list" where
  "thenCall p es = (case p of Fulfilled \<Rightarrow> es | Rejected \<Rightarrow> [] | Pending \<Rightarrow> [])"

subsection \<open>\<open>connect\<close> and \<open>startAudioInput\<close>\<close>

text \<open>
  \<open>media\<close> is what \<open>getUserMedia\<close> settles to: the tracks of the granted stream, or
  \<open>None\<close> when the device is refused, in which case \<open>connect\<close> rejects after both
  contexts were created.
\<close>

definition connect :: "trackState list option \<Rightarrow> promise \<Rightarrow> LuminaSession \<Rightarrow> result" where
  "connect media sessionPromise s =
     (let s1 = s\<lparr>inputContext := Some Running, outputContext := Some Running\<rparr> in
      case media of
        None \<Rightarrow> (([StatusChange ''Connecting...''], Some DeviceUnavailable), s1)
      | Some tracks \<Rightarrow>
          (([StatusChange ''Connecting...'', ChannelConnect], None),
           s1\<lparr>stream := Some tracks, session := Some sessionPromise\<rparr>))"

definition startAudioInput :: "LuminaSession \<Rightarrow> effect list \<times> LuminaSession" where
  "startAudioInput s =
     (if inputContext s = None \<or> stream s = None then ([], s)
      else ([GraphConnect], s\<lparr>source := Some Wired, inputProcessor := Some Wired\<rparr>))"

definition onopen :: "LuminaSession \<Rightarrow> effect list \<times> LuminaSession" where
  "onopen s = (let (es, s') = startAudioInput s in (StatusChange ''Connected'' # es, s'))"

definition onaudioprocess :: "promise \<Rightarrow> real list \<Rightarrow> effect list" where
  "onaudioprocess sessionPromise inputData =
     (let pcmBlob = createBlob inputData in thenCall sessionPromise [SendRealtimeInput pcmBlob])"

definition onclose :: "effect list" where
  "onclose = [StatusChange ''Disconnected'']"

definition onerror :: "error \<Rightarrow> effect list" where
  "onerror e = [ConsoleError ''Live API Error:'' e, StatusChange ''Error'']"

subsection \<open>\<open>playAudio\<close>\<close>

text \<open>
  \<open>now\<close> is \<open>outputContext.currentTime\<close> as read by the call. The body of the
  \<open>try\<close> block first raises the watermark to the clock, then decodes; an error raised
  by the decoder leaves the block with the watermark already raised. The \<open>await\<close> in
  the block resumes before any other message is delivered, so the call is one step.
\<close>

definition playAudio_try :: "real \<Rightarrow> string \<Rightarrow> LuminaSession \<Rightarrow> result" where
  "playAudio_try now base64 s =
     (let s1 = s\<lparr>nextStartTime := max (nextStartTime s) now\<rparr> in
      case decodeAudioData base64 of
        Inl e \<Rightarrow> (([], Some e), s1)
      | Inr audioBuffer \<Rightarrow>
          (let node = allocated s1 in
           (([SourceStart node audioBuffer (nextStartTime s1)], None),
            s1\<lparr>nextStartTime := nextStartTime s1 + duration audioBuffer,
               sources := (if node \<in> set (sources s1) then sources s1 else sources s1 @ [node]),
               allocated := Suc node\<rparr>)))"

definition playAudio :: "real \<Rightarrow> string \<Rightarrow> LuminaSession \<Rightarrow> result" where
  "playAudio now base64 s =
     (case outputContext s of
        None \<Rightarrow> (([], None), s)
      | Some ctx \<Rightarrow>
          (case playAudio_try now base64 s of
             ((es, Some e), s') \<Rightarrow> ((es @ [ConsoleError ''Audio Decode Error'' e], None), s')
           | ((es, None), s') \<Rightarrow> ((es, None), s')))"

text \<open>The \<open>ended\<close> listener of a playback node.\<close>

definition onended :: "nat \<Rightarrow> LuminaSession \<Rightarrow> LuminaSession" where
  "onended node s = s\<lparr>sources := removeAll node (sources s)\<rparr>"

subsection \<open>\<open>handleMessage\<close>\<close>

record ScreenArgs =
  title :: "string option"
  content_markdown :: "string option"

record FunctionCall =
  fc_id :: "string option"
  fc_name :: "string option"
  fc_args :: "ScreenArgs option"

text \<open>
  \<open>audioData\<close> is the value of the chain
  \<open>message.serverContent?.modelTurn?.parts?.[0]?.inlineData?.data\<close>, \<open>None\<close> when a link
  is absent. \<open>toolCall\<close> is absent, or present with an optional list of calls.
\<close>

record LiveServerMessage =
  audioData :: "string option"
  toolCall :: "FunctionCall list option option"

text \<open>
  The loop over \<open>functionCalls\<close>. The screen callback runs at once; the response is
  handed to \<open>sessionPromise.then\<close> and so is sent after the loop. Destructuring the
  arguments of an \<open>update_screen\<close> call that carries none raises \<open>TypeError\<close> and ends the
  loop; the first component collects the screen updates, the second the calls whose
  response was registered.
\<close>

fun functionCalls_loop :: "FunctionCall list \<Rightarrow> (effect list \<times> FunctionCall list) \<times> error option" where
  "functionCalls_loop [] = (([], []), None)"
| "functionCalls_loop (fc # fcs) =
     (if fc_name fc = Some ''update_screen'' then
        (case fc_args fc of
           None \<Rightarrow> (([], []), Some TypeError)
         | Some a \<Rightarrow>
             (let ((us, rs), err) = functionCalls_loop fcs
              in ((ScreenUpdate (title a) (content_markdown a) # us, fc # rs), err)))
      else functionCalls_loop fcs)"

definition toolResponse :: "FunctionCall \<Rightarrow> effect" where
  "toolResponse fc = SendToolResponse (fc_id fc) (fc_name fc) ''Screen updated successfully.''"

definition handleToolCall :: "LiveServerMessage \<Rightarrow> (effect list \<times> FunctionCall list) \<times> error option" where
  "handleToolCall message =
     (case toolCall message of
        None \<Rightarrow> (([], []), None)
      | Some None \<Rightarrow> (([], []), Some TypeError)
      | Some (Some calls) \<Rightarrow> functionCalls_loop calls)"

text \<open>
  \<open>handleMessage\<close> starts \<open>playAudio\<close> without awaiting it when the payload is a
  non-empty string and an output context exists, runs the loop, and returns; the unit
  is scheduled and the responses are sent right after, in that order.
\<close>

definition handleMessage :: "real \<Rightarrow> LiveServerMessage \<Rightarrow> promise \<Rightarrow> LuminaSession \<Rightarrow> result" where
  "handleMessage now message sessionPromise s =
     (let ((audio, _), s') =
            (case audioData message of
               None \<Rightarrow> (([], None), s)
             | Some base64Audio \<Rightarrow>
                 (if base64Audio \<noteq> [] \<and> outputContext s \<noteq> None
                  then playAudio now base64Audio s else (([], None), s)));
          ((updates, answered), err) = handleToolCall message
      in ((updates @ audio @ thenCall sessionPromise (map toolResponse answered), err), s'))"

subsection \<open>\<open>disconnect\<close>\<close>

text \<open>
  \<open>await this.session\<close> raises when the channel promise was rejected, and nothing after
  it runs. On a promise that never settles the \<open>await\<close> never resumes: \<open>disconnect\<close>
  makes no call and does not return, which is the value \<open>None\<close>. Every later statement
  is an optional call on a field or a loop over the set; none of them raises. The fields
  keep their references.
\<close>

definition releaseCapture :: "LuminaSession \<Rightarrow> effect list \<times> LuminaSession" where
  "releaseCapture s =
     ((case source s of None \<Rightarrow> [] | Some w \<Rightarrow> [MediaSourceDisconnect]) @
      (case inputProcessor s of None \<Rightarrow> [] | Some w \<Rightarrow> [ProcessorDisconnect]),
      s\<lparr>source := map_option (\<lambda>w. Unwired) (source s),
        inputProcessor := map_option (\<lambda>w. Unwired) (inputProcessor s)\<rparr>)"

definition stopTracks :: "LuminaSession \<Rightarrow> effect list \<times> LuminaSession" where
  "stopTracks s =
     ((case stream s of None \<Rightarrow> [] | Some ts \<Rightarrow> map TrackStop [0..<length ts]),
      s\<lparr>stream := map_option (map (\<lambda>t. Ended)) (stream s)\<rparr>)"

definition closeContexts :: "LuminaSession \<Rightarrow> effect list \<times> LuminaSession" where
  "closeContexts s =
     ((case inputContext s of None \<Rightarrow> [] | Some c \<Rightarrow> [ContextClose Input]) @
      (case outputContext s of None \<Rightarrow> [] | Some c \<Rightarrow> [ContextClose Output]),
      s\<lparr>inputContext := map_option (\<lambda>c. Closed) (inputContext s),
        outputContext := map_option (\<lambda>c. Closed) (outputContext s)\<rparr>)"

definition stopSources :: "LuminaSession \<Rightarrow> effect list \<times> LuminaSession" where
  "stopSources s = (map SourceStop (sources s), s\<lparr>sources := []\<rparr>)"

definition disconnect :: "LuminaSession \<Rightarrow> result option" where
  "disconnect s =
     (if session s = Some Pending then None
      else if session s = Some Rejected then Some (([], Some ChannelFailure), s)
      else
        (let (e1, s1) = releaseCapture s;
             (e2, s2) = stopTracks s1;
             (e3, s3) = closeContexts s2;
             (e4, s4) = stopSources s3
         in Some ((e1 @ e2 @ e3 @ e4 @ [StatusChange ''Disconnected''], None), s4)))"

subsection \<open>A session's life as a sequence of events\<close>

text \<open>
  What can happen to a session: its two public methods are called, the channel
  reports open, message, close or error, the capture node delivers a block, a
  playback node ends. The channel and capture callbacks exist only once \<open>connect\<close>
  has opened a channel. An error a method rejects with goes to its caller and does not
  stop later events; a \<open>disconnect\<close> that never resumes makes no call and changes
  nothing.
\<close>

datatype event =
    Connect "trackState list option" promise
  | Disconnect
  | ChannelOpen
  | ChannelMessage real LiveServerMessage
  | ChannelClose
  | ChannelError error
  | AudioProcess "real list"
  | SourceEnded nat

fun step :: "event \<Rightarrow> LuminaSession \<Rightarrow> effect list \<times> LuminaSession" where
  "step (Connect media p) s = (let ((es, err), s') = connect media p s in (es, s'))"
| "step Disconnect s =
     (case disconnect s of None \<Rightarrow> ([], s) | Some ((es, err), s') \<Rightarrow> (es, s'))"
| "step (SourceEnded node) s = ([], onended node s)"
| "step ev s =
     (case session s of
        None \<Rightarrow> ([], s)
      | Some p \<Rightarrow>
          (case ev of
             ChannelOpen \<Rightarrow> onopen s
           | ChannelMessage now m \<Rightarrow> (let ((es, err), s') = handleMessage now m p s in (es, s'))
           | ChannelClose \<Rightarrow> (onclose, s)
           | ChannelError e \<Rightarrow> (onerror e, s)
           | AudioProcess inputData \<Rightarrow> (onaudioprocess p inputData, s)
           | _ \<Rightarrow> ([], s)))"

fun run :: "event list \<Rightarrow> LuminaSession \<Rightarrow> effect list \<times> LuminaSession" where
  "run [] s = ([], s)"
| "run (ev # evs) s =
     (let (es, s') = step ev s; (es', s'') = run evs s' in (es @ es', s''))"

text \<open>The chunks of a stream handed to \<open>playAudio\<close> one after the other.\<close>

fun playAll :: "(real \<times> string) list \<Rightarrow> LuminaSession \<Rightarrow> effect list \<times> LuminaSession" where
  "playAll [] s = ([], s)"
| "playAll ((now, base64) # cs) s =
     (let ((es, err), s') = playAudio now base64 s; (es', s'') = playAll cs s'
      in (es @ es', s''))"



text \<open>Two kinds of call picked out of a trace.\<close>

fun isToolResponse :: "effect \<Rightarrow> bool" where
  "isToolResponse (SendToolResponse i n r) = True"
| "isToolResponse e = False"

fun isSourceStop :: "effect \<Rightarrow> bool" where
  "isSourceStop (SourceStop node) = True"
| "isSourceStop e = False"

section \<open>Properties of the codec\<close>

subsection \<open>Base64 decoding undoes encoding\<close>

lemma distinct_alphabet: "distinct b64_alphabet"
  by (simp add: b64_alphabet_def)

lemma length_alphabet: "length b64_alphabet = 64"
  by (simp add: b64_alphabet_def)

lemma index_of_nth: "distinct xs \<Longrightarrow> k < length xs \<Longrightarrow> index_of (xs ! k) xs = Some k"
proof (induction xs arbitrary: k)
  case Nil
  then show ?case by simp
next
  case (Cons y ys)
  show ?case
  proof (cases k)
    case 0
    then show ?thesis by simp
  next
    case (Suc j)
    with Cons.prems have "j < length ys" "distinct ys" "ys ! j \<noteq> y" by auto
    with Cons.IH[of j] Suc show ?thesis by auto
  qed
qed

lemma b64_value_char: "k < 64 \<Longrightarrow> b64_value (b64_char k) = Some k"
  unfolding b64_value_def b64_char_def
  by (rule index_of_nth) (simp_all add: distinct_alphabet length_alphabet)

lemma alphabet_plain:
  "c \<in> set b64_alphabet \<Longrightarrow> \<not> is_ascii_whitespace c \<and> c \<noteq> CHR ''=''"
  by (auto simp add: b64_alphabet_def is_ascii_whitespace_def)

lemma b64_char_plain:
  "k < 64 \<Longrightarrow> \<not> is_ascii_whitespace (b64_char k) \<and> b64_char k \<noteq> CHR ''=''"
  by (rule alphabet_plain) (simp add: b64_char_def length_alphabet)

lemma sextets_lt: "\<forall>a\<in>set xs. a < 256 \<Longrightarrow> \<forall>v\<in>set (sextets xs). v < 64"
  by (induction xs rule: sextets.induct) (auto simp: less_mult_imp_div_less)

lemma octets_sextets: "\<forall>a\<in>set xs. a < 256 \<Longrightarrow> octets (sextets xs) = xs"
  by (induction xs rule: sextets.induct) auto

lemma length_sextets: "length (sextets xs) mod 4 \<noteq> 1"
  by (induction xs rule: sextets.induct) auto

lemma length_sextets_padding:
  "(length (sextets xs) + length (padding (length xs))) mod 4 = 0"
  by (induction xs rule: sextets.induct) (auto simp: padding_def)

lemma strip_padding_rev_replicate:
  assumes ys: "\<forall>c\<in>set ys. c \<noteq> CHR ''=''" and n: "n \<le> 2"
  shows "strip_padding_rev (replicate n (CHR ''='') @ ys) = ys"
proof -
  from n consider "n = 0" | "n = 1" | "n = 2" by linarith
  then show ?thesis
  proof cases
    case 1
    with ys show ?thesis by (cases ys rule: strip_padding_rev.cases) auto
  next
    case 2
    with ys show ?thesis by (cases ys) auto
  next
    case 3
    then show ?thesis by (simp add: numeral_2_eq_2)
  qed
qed

lemma those_b64:
  "\<forall>v\<in>set vs. v < 64 \<Longrightarrow> those (map b64_value (map b64_char vs)) = Some vs"
  by (induction vs) (auto simp: b64_value_char)

lemma atob_btoa: "atob (btoa s) = Some s"
proof -
  let ?vs = "sextets (map of_char s)"
  let ?body = "map b64_char ?vs"
  have lt: "\<forall>v\<in>set ?vs. v < 64" by (rule sextets_lt) simp
  have plain: "\<forall>c\<in>set ?body. \<not> is_ascii_whitespace c \<and> c \<noteq> CHR ''=''"
    using lt b64_char_plain by auto
  have pad_ws: "\<forall>c\<in>set (padding (length s)). \<not> is_ascii_whitespace c"
    by (simp add: padding_def is_ascii_whitespace_def)
  have f: "filter (\<lambda>c. \<not> is_ascii_whitespace c) (btoa s) = btoa s"
    unfolding btoa_def using plain pad_ws by (simp add: filter_id_conv)
  have len: "length (btoa s) mod 4 = 0"
    using length_sextets_padding[of "map of_char s"] by (simp add: btoa_def)
  have "rev (btoa s) = replicate ((3 - length s mod 3) mod 3) (CHR ''='') @ rev ?body"
    by (simp add: btoa_def padding_def)
  moreover have
    "strip_padding_rev (replicate ((3 - length s mod 3) mod 3) (CHR ''='') @ rev ?body) = rev ?body"
    by (rule strip_padding_rev_replicate) (use plain in auto)
  ultimately have sp: "strip_padding (btoa s) = ?body"
    using len by (simp add: strip_padding_def)
  have l1: "length ?body mod 4 \<noteq> 1" using length_sextets[of "map of_char s"] by simp
  have th: "those (map b64_value ?body) = Some ?vs" by (rule those_b64) (rule lt)
  have oc: "octets ?vs = map of_char s" by (rule octets_sextets) simp
  have "map char_of (map (of_char :: char \<Rightarrow> nat) s) = s" by (simp add: comp_def)
  with f sp l1 th oc show ?thesis by (simp add: atob_def Let_def)
qed

subsection \<open>The two views of a sample buffer\<close>

lemma uint8_lt: "uint (b::uint8) < 256"
proof -
  have "uint b < 2 ^ LENGTH(8)" by (rule unsigned_less)
  then show ?thesis by simp
qed

lemma uint16_lt: "uint (w::int16) < 65536"
proof -
  have "uint w < 2 ^ LENGTH(16)" by (rule unsigned_less)
  then show ?thesis by simp
qed

lemma sint16_bounds: "- 32768 \<le> sint (w :: int16) \<and> sint w < 32768"
  using sint_lt[of w] sint_ge[of w] by simp

lemma int16_of_bytes:
  "uint (ucast (lo::uint8) OR push_bit 8 (ucast (hi::uint8)) :: int16) = uint lo + 256 * uint hi"
proof -
  have d: "(ucast lo :: int16) OR push_bit 8 (ucast hi) = ucast lo + push_bit 8 (ucast hi)"
    by (rule disjunctive_add[symmetric]) (auto simp: bit_simps dest: bit_imp_le_length)
  have a: "uint (ucast lo :: int16) = uint lo" by (simp add: uint_up_ucast is_up)
  have a': "uint (ucast hi :: int16) = uint hi" by (simp add: uint_up_ucast is_up)
  have "uint (push_bit 8 (ucast hi :: int16)) = take_bit 16 (push_bit 8 (uint (ucast hi :: int16)))"
    by (simp add: unsigned_push_bit_eq)
  also have "\<dots> = take_bit 16 (256 * uint hi)"
    by (simp add: a' push_bit_eq_mult mult.commute)
  also have "\<dots> = 256 * uint hi"
    using uint8_lt[of hi] by (intro take_bit_int_eq_self) simp_all
  finally have b: "uint (push_bit 8 (ucast hi :: int16)) = 256 * uint hi" .
  have "uint (ucast lo + push_bit 8 (ucast hi) :: int16) = (uint lo + 256 * uint hi) mod 2 ^ 16"
    by (simp add: uint_word_ariths a b)
  also have "\<dots> = uint lo + 256 * uint hi"
    using uint8_lt[of hi] uint8_lt[of lo] by (intro mod_pos_pos_trivial) simp_all
  finally show ?thesis by (simp add: d)
qed

lemma low_byte: "uint (ucast (w::int16) :: uint8) = uint w mod 256"
  by (simp add: unsigned_ucast_eq take_bit_eq_mod)

lemma high_byte: "uint (ucast (drop_bit 8 (w::int16)) :: uint8) = uint w div 256"
proof -
  have "take_bit 16 (uint w) = uint w"
    using uint16_lt[of w] by (intro take_bit_int_eq_self) simp_all
  then have "uint (ucast (drop_bit 8 w) :: uint8) = take_bit 8 (drop_bit 8 (uint w))"
    by (simp add: unsigned_ucast_eq unsigned_drop_bit_eq)
  also have "\<dots> = (uint w div 256) mod 256"
    by (simp add: take_bit_eq_mod drop_bit_eq_div)
  also have "\<dots> = uint w div 256"
    using uint16_lt[of w] by (intro mod_pos_pos_trivial) (simp_all add: pos_imp_zdiv_nonneg_iff)
  finally show ?thesis .
qed

lemma int16_view_bytes: "int16_view (Uint8Array_of_int16 ws) = ws"
proof (induction ws)
  case Nil
  then show ?case by simp
next
  case (Cons w ws)
  have "(ucast (ucast w :: uint8) OR push_bit 8 (ucast (ucast (drop_bit 8 w) :: uint8))) = w"
    by (rule bit_word_eqI) (auto simp: bit_simps)
  with Cons show ?case by simp
qed

lemma length_bytes: "length (Uint8Array_of_int16 ws) = 2 * length ws"
  by (induction ws) auto

lemma length_int16_view: "length (int16_view bs) = length bs div 2"
  by (induction bs rule: int16_view.induct) auto

lemma bytes_nth:
  "i < length ws \<Longrightarrow>
     Uint8Array_of_int16 ws ! (2 * i) = ucast (ws ! i) \<and>
     Uint8Array_of_int16 ws ! (2 * i + 1) = ucast (drop_bit 8 (ws ! i))"
proof (induction ws arbitrary: i)
  case Nil
  then show ?case by simp
next
  case (Cons w ws)
  then show ?case by (cases i) simp_all
qed

lemma int16_view_nth:
  "i < length bs div 2 \<Longrightarrow>
     uint (int16_view bs ! i) = uint (bs ! (2 * i)) + 256 * uint (bs ! (2 * i + 1))"
proof (induction bs arbitrary: i rule: int16_view.induct)
  case (1 lo hi bs)
  then show ?case by (cases i) (simp_all add: int16_of_bytes)
qed simp_all

lemma charCodeAt_fromCharCode: "charCodeAt (fromCharCode b) = b"
proof -
  have "unat b < 2 ^ LENGTH(8)" by (rule unsigned_less)
  then have "unat b < 256" by simp
  then show ?thesis by (simp add: charCodeAt_def fromCharCode_def of_char_of)
qed

lemma of_char_fromCharCode: "int (of_char (fromCharCode b)) = uint b"
proof -
  have "unat b < 2 ^ LENGTH(8)" by (rule unsigned_less)
  then have "unat b < 256" by simp
  then show ?thesis by (simp add: fromCharCode_def of_char_of)
qed

subsection \<open>Truncation and the 16-bit range\<close>

lemma trunc_range: "- 1 \<le> s \<Longrightarrow> s < 1 \<Longrightarrow> - 32768 \<le> trunc (s * 32768) \<and> trunc (s * 32768) \<le> 32767"
  unfolding trunc_def by (auto simp: le_ceiling_iff floor_less_iff le_floor_iff)

lemma trunc_error: "\<bar>x - real_of_int (trunc x)\<bar> < 1"
  unfolding trunc_def by (auto simp: abs_if) linarith+

lemma sint_ToInt16:
  "- 32768 \<le> trunc x \<Longrightarrow> trunc x \<le> 32767 \<Longrightarrow> sint (ToInt16 x) = trunc x"
  unfolding ToInt16_def by (simp add: signed_of_int signed_take_bit_int_eq_self)

lemma decode_encode:
  "ws \<noteq> [] \<Longrightarrow> decodeAudioData (encode (Uint8Array_of_int16 ws)) =
     Inr \<lparr>sampleRate = 24000, channelData = map (\<lambda>w. real_of_int (sint w) / 32768) ws\<rparr>"
  by (simp add: decodeAudioData_def encode_def atob_btoa comp_def charCodeAt_fromCharCode
      Int16Array_of_bytes_def length_bytes int16_view_bytes createBuffer_def)

section \<open>Claims about the codec\<close>

text \<open>
  C10. Decoder output. For a payload that base64-decodes to an even number of bytes,
  \<open>decodeAudioData\<close> returns a buffer whose frame count is half the byte count and
  whose every sample is the 16-bit element of the little-endian view divided by
  \<open>32768\<close>, hence in \<open>[-1, 1)\<close>. The one payload for which it returns nothing is the
  empty one, where no buffer is created at all.
\<close>

theorem decodeAudioData_samples:
  assumes "atob base64 = Some binaryString" and "even (length binaryString)"
  shows "case decodeAudioData base64 of
           Inl e \<Rightarrow> binaryString = [] \<and> e = NotSupportedError
         | Inr buffer \<Rightarrow>
             length (channelData buffer) = length binaryString div 2 \<and>
             (\<forall>i < length (channelData buffer).
                channelData buffer ! i =
                  real_of_int (sint (int16_view (map charCodeAt binaryString) ! i)) / 32768 \<and>
                uint (int16_view (map charCodeAt binaryString) ! i) =
                  uint (charCodeAt (binaryString ! (2 * i))) +
                  256 * uint (charCodeAt (binaryString ! (2 * i + 1))) \<and>
                - 1 \<le> channelData buffer ! i \<and> channelData buffer ! i < 1)"
proof (cases "binaryString = []")
  case True
  with assms show ?thesis
    by (simp add: decodeAudioData_def Int16Array_of_bytes_def createBuffer_def)
next
  case False
  let ?bs = "map charCodeAt binaryString"
  let ?ws = "int16_view ?bs"
  from False assms(2) have pos: "length binaryString div 2 \<noteq> 0"
    by (cases binaryString) auto
  have dec: "decodeAudioData base64 =
      Inr \<lparr>sampleRate = 24000, channelData = map (\<lambda>w. real_of_int (sint w) / 32768) ?ws\<rparr>"
    using assms pos
    by (simp add: decodeAudioData_def Int16Array_of_bytes_def createBuffer_def length_int16_view)
  have rng: "- 1 \<le> real_of_int (sint w) / 32768 \<and> real_of_int (sint w) / 32768 < 1"
    for w :: int16
    using sint16_bounds[of w] by (simp del: of_int_sint)
  have le: "uint (?ws ! i) =
      uint (charCodeAt (binaryString ! (2 * i))) + 256 * uint (charCodeAt (binaryString ! (2 * i + 1)))"
    if "i < length binaryString div 2" for i
  proof -
    from that have "2 * i < length binaryString" "2 * i + 1 < length binaryString" by auto
    with int16_view_nth[of i ?bs] that show ?thesis by simp
  qed
  show ?thesis
    unfolding dec using rng le by (simp add: length_int16_view)
qed

theorem decodeAudioData_samples_witness:
  "atob ''AID/fw=='' = Some (map char_of [0, 128, 255, 127 :: nat]) \<and>
   decodeAudioData ''AID/fw=='' =
     Inr \<lparr>sampleRate = 24000, channelData = [- 1, 32767 / 32768]\<rparr> \<and>
   (case decodeAudioData ''AID/fw=='' of
      Inl e \<Rightarrow> False
    | Inr buffer \<Rightarrow> length (channelData buffer) = 2 \<and>
        (\<forall>i < length (channelData buffer). - 1 \<le> channelData buffer ! i \<and> channelData buffer ! i < 1))"
proof -
  have a: "atob ''AID/fw=='' = Some (map char_of [0, 128, 255, 127 :: nat])"
    by (simp add: atob_def strip_padding_def is_ascii_whitespace_def b64_value_def
        b64_alphabet_def Let_def)
  have e: "even (length (map char_of [0, 128, 255, 127 :: nat] :: string))" by simp
  have d: "decodeAudioData ''AID/fw=='' =
      Inr \<lparr>sampleRate = 24000, channelData = [- 1, 32767 / 32768]\<rparr>"
    by (simp add: decodeAudioData_def a Int16Array_of_bytes_def createBuffer_def charCodeAt_def of_char_of)
  from decodeAudioData_samples[OF a e] d show ?thesis
    by (simp add: a)
qed

text \<open>
  C2. Encoder output, as the code computes it. The packet is tagged
  \<open>audio/pcm;rate=16000\<close>; its payload base64-decodes to two bytes per sample, low byte
  first, of the sample's 16-bit element; and for every sample \<open>s\<close> with \<open>-1 \<le> s < 1\<close>
  that element is \<open>s * 32768\<close> truncated towards zero, which lies in the 16-bit range.
\<close>

theorem createBlob_packet:
  "mimeType (createBlob d) = ''audio/pcm;rate=16000'' \<and>
   (\<exists>binaryString.
      atob (data (createBlob d)) = Some binaryString \<and>
      length binaryString = 2 * length d \<and>
      (\<forall>i < length d.
         int (of_char (binaryString ! (2 * i))) = uint (quantize d ! i) mod 256 \<and>
         int (of_char (binaryString ! (2 * i + 1))) = uint (quantize d ! i) div 256 \<and>
         (- 1 \<le> d ! i \<and> d ! i < 1 \<longrightarrow>
            sint (quantize d ! i) = trunc (d ! i * 32768) \<and>
            - 32768 \<le> trunc (d ! i * 32768) \<and> trunc (d ! i * 32768) \<le> 32767)))"
proof -
  let ?bs = "Uint8Array_of_int16 (quantize d)"
  let ?bin = "map fromCharCode ?bs"
  have len: "length (quantize d) = length d" by (simp add: quantize_def)
  have a: "atob (data (createBlob d)) = Some ?bin"
    by (simp add: createBlob_def encode_def atob_btoa)
  have l: "length ?bin = 2 * length d" by (simp add: length_bytes len)
  have b: "int (of_char (?bin ! (2 * i))) = uint (quantize d ! i) mod 256 \<and>
           int (of_char (?bin ! (2 * i + 1))) = uint (quantize d ! i) div 256"
    if "i < length d" for i
  proof -
    have lo: "int (of_char (fromCharCode (ucast w :: uint8))) = uint w mod 256" for w :: int16
      by (simp only: of_char_fromCharCode low_byte)
    have hi: "int (of_char (fromCharCode (ucast (drop_bit 8 w) :: uint8))) = uint w div 256"
      for w :: int16
      by (simp only: of_char_fromCharCode high_byte)
    from that have "2 * i < length ?bs" "2 * i + 1 < length ?bs" by (simp_all add: length_bytes len)
    then have e: "?bin ! (2 * i) = fromCharCode (?bs ! (2 * i))"
      "?bin ! (2 * i + 1) = fromCharCode (?bs ! (2 * i + 1))" by simp_all
    from bytes_nth[of i "quantize d"] that
    have n: "?bs ! (2 * i) = ucast (quantize d ! i)"
      "?bs ! (2 * i + 1) = ucast (drop_bit 8 (quantize d ! i))" by (simp_all add: len)
    show ?thesis unfolding e n by (intro conjI lo hi)
  qed
  have q: "sint (quantize d ! i) = trunc (d ! i * 32768) \<and>
           - 32768 \<le> trunc (d ! i * 32768) \<and> trunc (d ! i * 32768) \<le> 32767"
    if "i < length d" "- 1 \<le> d ! i" "d ! i < 1" for i
    using that trunc_range[of "d ! i"] by (simp add: quantize_def sint_ToInt16)
  have m: "mimeType (createBlob d) = ''audio/pcm;rate=16000''"
    by (simp add: createBlob_def)
  from a l b q m show ?thesis by blast
qed

theorem createBlob_packet_witness:
  "data (createBlob [- 1, 3 / 131072, 1 / 2]) = ''AIAAAABA'' \<and>
   mimeType (createBlob [- 1, 3 / 131072, 1 / 2]) = ''audio/pcm;rate=16000'' \<and>
   map sint (quantize [- 1, 3 / 131072, 1 / 2]) = [- 32768, 0, 16384] \<and>
   (\<exists>binaryString.
      atob (data (createBlob [- 1, 3 / 131072, 1 / 2])) = Some binaryString \<and>
      length binaryString = 6)"
proof -
  have q: "quantize [- 1, 3 / 131072, 1 / 2] = [32768, 0, 16384]"
    by (simp add: quantize_def ToInt16_def trunc_def)
  have d: "data (createBlob [- 1, 3 / 131072, 1 / 2]) = ''AIAAAABA''"
    by (simp add: createBlob_def q encode_def fromCharCode_def btoa_def padding_def
        b64_char_def b64_alphabet_def of_char_of)
  from createBlob_packet[of "[- 1, 3 / 131072, 1 / 2]"] d q show ?thesis
    by auto
qed

text \<open>
  The claim as written fails twice: a sample is truncated, not rounded
  (\<open>3/131072\<close> scales to \<open>0.75\<close> and is stored as \<open>0\<close>), and \<open>+1.0\<close> is not clamped but
  wraps to \<open>-32768\<close>.
\<close>

theorem createBlob_round_clamp_counterexample:
  "sint (quantize [3 / 131072] ! 0) = 0 \<and>
   round (3 / 131072 * 32768 :: real) = 1 \<and>
   sint (quantize [1] ! 0) = - 32768 \<and>
   max (- 32768) (min 32767 (round (1 * 32768 :: real))) = 32767"
  by (simp add: quantize_def ToInt16_def trunc_def round_def)

text \<open>
  C3. Encoding the one-sample frame \<open>[1.0]\<close> and decoding the packet yields the
  sample \<open>-1.0\<close>: the round trip is off by \<open>2\<close>, not by at most \<open>1/32768\<close>.
\<close>

theorem roundtrip_plus_one:
  "decodeAudioData (data (createBlob [1])) = Inr \<lparr>sampleRate = 24000, channelData = [- 1]\<rparr> \<and>
   \<not> \<bar>1 - (- 1 :: real)\<bar> \<le> 1 / 32768"
proof -
  have q: "quantize [1] = [32768]"
    by (simp add: quantize_def ToInt16_def trunc_def)
  have "quantize [1] \<noteq> []" by (simp add: quantize_def)
  from decode_encode[OF this] show ?thesis
    by (simp add: createBlob_def q)
qed

text \<open>Below \<open>+1.0\<close> the round trip stays within one quantization step.\<close>

lemma roundtrip_below_one:
  assumes "d \<noteq> []" and "\<forall>s\<in>set d. - 1 \<le> s \<and> s < 1"
  shows "\<exists>buffer. decodeAudioData (data (createBlob d)) = Inr buffer \<and>
           length (channelData buffer) = length d \<and>
           (\<forall>i < length d. \<bar>d ! i - channelData buffer ! i\<bar> < 1 / 32768)"
proof -
  from assms(1) have ne: "quantize d \<noteq> []" by (simp add: quantize_def)
  have dec: "decodeAudioData (data (createBlob d)) =
      Inr \<lparr>sampleRate = 24000,
           channelData = map (\<lambda>w. real_of_int (sint w) / 32768) (quantize d)\<rparr>"
    using decode_encode[OF ne] by (simp add: createBlob_def)
  have "\<bar>d ! i - real_of_int (sint (quantize d ! i)) / 32768\<bar> < 1 / 32768"
    if "i < length d" for i
  proof -
    from that assms(2) have r: "- 1 \<le> d ! i" "d ! i < 1" by auto
    with trunc_range[of "d ! i"] that
    have s: "sint (quantize d ! i) = trunc (d ! i * 32768)"
      by (simp add: quantize_def sint_ToInt16)
    have "\<bar>d ! i * 32768 - real_of_int (trunc (d ! i * 32768))\<bar> < 1" by (rule trunc_error)
    then have "\<bar>d ! i - real_of_int (trunc (d ! i * 32768)) / 32768\<bar> < 1 / 32768"
      by (simp add: abs_if field_simps split: if_splits)
    with s show ?thesis by (simp del: of_int_sint)
  qed
  with dec show ?thesis by (simp add: quantize_def del: of_int_sint)
qed

section \<open>Properties of the session\<close>

subsection \<open>Traces\<close>



subsection \<open>The three ways \<open>playAudio\<close> goes\<close>

lemma playAudio_no_context:
  "outputContext s = None \<Longrightarrow> playAudio now base64 s = (([], None), s)"
  by (simp add: playAudio_def)

lemma playAudio_failed:
  "outputContext s \<noteq> None \<Longrightarrow> decodeAudioData base64 = Inl e \<Longrightarrow>
     playAudio now base64 s =
       (([ConsoleError ''Audio Decode Error'' e], None),
        s\<lparr>nextStartTime := max (nextStartTime s) now\<rparr>)"
  by (auto simp add: playAudio_def playAudio_try_def)

lemma playAudio_scheduled:
  "outputContext s \<noteq> None \<Longrightarrow> decodeAudioData base64 = Inr b \<Longrightarrow>
     playAudio now base64 s =
       (([SourceStart (allocated s) b (max (nextStartTime s) now)], None),
        s\<lparr>nextStartTime := max (nextStartTime s) now + duration b,
          sources := (if allocated s \<in> set (sources s) then sources s
                      else sources s @ [allocated s]),
          allocated := Suc (allocated s)\<rparr>)"
  by (auto simp add: playAudio_def playAudio_try_def Let_def)




lemma decode_one_silent_frame:
  "decodeAudioData ''AAA='' = Inr \<lparr>sampleRate = 24000, channelData = [0]\<rparr>"
  by (simp add: decodeAudioData_def atob_def strip_padding_def is_ascii_whitespace_def
      b64_value_def b64_alphabet_def Let_def Int16Array_of_bytes_def createBuffer_def
      charCodeAt_def of_char_of)

lemma decode_bad_length: "decodeAudioData ''A'' = Inl InvalidCharacterError"
  by (simp add: decodeAudioData_def atob_def strip_padding_def is_ascii_whitespace_def)

subsection \<open>The watermark over a whole life\<close>

lemma handleMessage_state:
  "snd (handleMessage now m p s) =
     (case audioData m of
        None \<Rightarrow> s
      | Some b \<Rightarrow> if b \<noteq> [] \<and> outputContext s \<noteq> None then snd (playAudio now b s) else s)"
  by (simp add: handleMessage_def split_beta Let_def split: option.splits)






section \<open>Claims about playback scheduling\<close>




text \<open>
  C7. A chunk whose decoding fails is logged and dropped: \<open>playAudio\<close> makes the one
  console call, rejects with nothing, schedules nothing, and leaves every field of the
  session as it was except that the watermark has been raised to the clock; it is not
  advanced by any duration. No call of \<open>playAudio\<close> ever rejects, and the chunks after
  the bad one are handled from that session as usual.
\<close>

theorem playAudio_decode_failure:
  assumes "outputContext s \<noteq> None" and "decodeAudioData base64 = Inl e"
  shows "playAudio now base64 s =
           (([ConsoleError ''Audio Decode Error'' e], None),
            s\<lparr>nextStartTime := max (nextStartTime s) now\<rparr>) \<and>
         sources (snd (playAudio now base64 s)) = sources s \<and>
         (\<forall>now' base64' s'. snd (fst (playAudio now' base64' s')) = None) \<and>
         playAll ((now, base64) # cs) s =
           (ConsoleError ''Audio Decode Error'' e #
              fst (playAll cs (s\<lparr>nextStartTime := max (nextStartTime s) now\<rparr>)),
            snd (playAll cs (s\<lparr>nextStartTime := max (nextStartTime s) now\<rparr>)))"
proof -
  have r: "snd (fst (playAudio now' base64' s')) = None" for now' base64' s'
    by (simp add: playAudio_def split: option.splits prod.splits)
  from assms show ?thesis
    by (simp add: playAudio_failed split_beta r)
qed

theorem playAudio_decode_failure_witness:
  "decodeAudioData ''A'' = Inl InvalidCharacterError \<and>
   playAll [(3, ''A''), (4, ''AAA='')] (snd (connect (Some [Live]) Fulfilled new_LuminaSession)) =
     (ConsoleError ''Audio Decode Error'' InvalidCharacterError #
        fst (playAll [(4, ''AAA='')]
          ((snd (connect (Some [Live]) Fulfilled new_LuminaSession))\<lparr>nextStartTime := 3\<rparr>)),
      snd (playAll [(4, ''AAA='')]
          ((snd (connect (Some [Live]) Fulfilled new_LuminaSession))\<lparr>nextStartTime := 3\<rparr>)))"
proof -
  let ?s = "snd (connect (Some [Live]) Fulfilled new_LuminaSession)"
  have c: "outputContext ?s \<noteq> None" by (simp add: connect_def new_LuminaSession_def)
  have n: "max (nextStartTime ?s) 3 = 3" by (simp add: connect_def new_LuminaSession_def)
  note w = playAudio_decode_failure[OF c decode_bad_length, of 3 "[(4, ''AAA='')]", unfolded n]
  show ?thesis
    by (intro conjI) (rule decode_bad_length, rule w[THEN conjunct2, THEN conjunct2, THEN conjunct2])
qed

section \<open>Claims about tool invocations\<close>

lemma functionCalls_loop_complete:
  "\<forall>fc\<in>set calls. fc_name fc = Some ''update_screen'' \<longrightarrow> fc_args fc \<noteq> None \<Longrightarrow>
     snd (fst (functionCalls_loop calls)) =
       filter (\<lambda>fc. fc_name fc = Some ''update_screen'') calls \<and>
     snd (functionCalls_loop calls) = None"
  by (induction calls) (auto simp: split_beta)

lemma functionCalls_loop_updates:
  "filter isToolResponse (fst (fst (functionCalls_loop calls))) = []"
  by (induction calls) (auto simp: split_beta split: option.splits)

lemma playAudio_no_response: "filter isToolResponse (fst (fst (playAudio now b s))) = []"
proof (cases "outputContext s = None")
  case True
  then show ?thesis by (simp add: playAudio_no_context)
next
  case False
  then show ?thesis
    by (cases "decodeAudioData b") (simp_all add: playAudio_failed playAudio_scheduled)
qed

lemma filter_toolResponse: "filter isToolResponse (map toolResponse fcs) = map toolResponse fcs"
  by (induction fcs) (simp_all add: toolResponse_def)

lemma handleMessage_responses:
  "toolCall message = Some (Some calls) \<Longrightarrow>
     filter isToolResponse (fst (fst (handleMessage now message p s))) =
       thenCall p (map toolResponse (snd (fst (functionCalls_loop calls))))"
proof -
  assume t: "toolCall message = Some (Some calls)"
  have a: "filter isToolResponse (thenCall p (map toolResponse fcs)) =
      thenCall p (map toolResponse fcs)" for fcs
    by (cases p) (simp_all add: thenCall_def filter_toolResponse)
  show ?thesis
    using t
    by (simp add: handleMessage_def handleToolCall_def split_beta Let_def a
        functionCalls_loop_updates playAudio_no_response split: option.splits)
qed

text \<open>
  C4. On an open channel, a message whose \<open>update_screen\<close> invocations all carry their
  arguments gets exactly one response per \<open>update_screen\<close> invocation, in order, each
  with that invocation's id and name; invocations of any other name get none; and the
  handler rejects with nothing.
\<close>

theorem handleMessage_tool_responses:
  assumes "toolCall message = Some (Some calls)"
    and "\<forall>fc\<in>set calls. fc_name fc = Some ''update_screen'' \<longrightarrow> fc_args fc \<noteq> None"
  shows "filter isToolResponse (fst (fst (handleMessage now message Fulfilled s))) =
           map (\<lambda>fc. SendToolResponse (fc_id fc) (fc_name fc) ''Screen updated successfully.'')
             (filter (\<lambda>fc. fc_name fc = Some ''update_screen'') calls) \<and>
         snd (fst (handleMessage now message Fulfilled s)) = None"
proof -
  from functionCalls_loop_complete[OF assms(2)]
  have l: "snd (fst (functionCalls_loop calls)) =
      filter (\<lambda>fc. fc_name fc = Some ''update_screen'') calls"
    and n: "snd (functionCalls_loop calls) = None" by simp_all
  have r: "filter isToolResponse (fst (fst (handleMessage now message Fulfilled s))) =
      map toolResponse (filter (\<lambda>fc. fc_name fc = Some ''update_screen'') calls)"
    using handleMessage_responses[OF assms(1), of now Fulfilled s] l by (simp add: thenCall_def)
  have t: "toolResponse = (\<lambda>fc. SendToolResponse (fc_id fc) (fc_name fc) ''Screen updated successfully.'')"
    by (rule ext) (simp add: toolResponse_def)
  have e: "snd (fst (handleMessage now message Fulfilled s)) = None"
    using assms(1) n by (simp add: handleMessage_def handleToolCall_def split_beta Let_def)
  from r t e show ?thesis by simp
qed

theorem handleMessage_tool_responses_witness:
  "filter isToolResponse (fst (fst (handleMessage 0
      \<lparr>audioData = None,
       toolCall = Some (Some
         [\<lparr>fc_id = Some ''a'', fc_name = Some ''update_screen'',
           fc_args = Some \<lparr>title = Some ''T'', content_markdown = Some ''x''\<rparr>\<rparr>,
          \<lparr>fc_id = Some ''b'', fc_name = Some ''update_screen'',
           fc_args = Some \<lparr>title = Some ''U'', content_markdown = Some ''y''\<rparr>\<rparr>])\<rparr>
      Fulfilled new_LuminaSession))) =
     [SendToolResponse (Some ''a'') (Some ''update_screen'') ''Screen updated successfully.'',
      SendToolResponse (Some ''b'') (Some ''update_screen'') ''Screen updated successfully.'']"
proof -
  let ?calls = "[\<lparr>fc_id = Some ''a'', fc_name = Some ''update_screen'',
           fc_args = Some \<lparr>title = Some ''T'', content_markdown = Some ''x''\<rparr>\<rparr>,
          \<lparr>fc_id = Some ''b'', fc_name = Some ''update_screen'',
           fc_args = Some \<lparr>title = Some ''U'', content_markdown = Some ''y''\<rparr>\<rparr>]"
  let ?m = "\<lparr>audioData = None, toolCall = Some (Some ?calls)\<rparr>"
  have a: "toolCall ?m = Some (Some ?calls)" by simp
  have b: "\<forall>fc\<in>set ?calls. fc_name fc = Some ''update_screen'' \<longrightarrow> fc_args fc \<noteq> None"
    by simp
  from handleMessage_tool_responses[OF a b, of 0 new_LuminaSession] show ?thesis by simp
qed

text \<open>
  The claim as written covers invocations of every name. An invocation of another tool
  is skipped by the name test and is never answered.
\<close>

theorem handleMessage_other_tool_counterexample:
  "filter isToolResponse (fst (fst (handleMessage 0
      \<lparr>audioData = None,
       toolCall = Some (Some [\<lparr>fc_id = Some ''a'', fc_name = Some ''search'', fc_args = None\<rparr>])\<rparr>
      Fulfilled new_LuminaSession))) = []"
  by (simp add: handleMessage_def handleToolCall_def thenCall_def)

section \<open>Claims about teardown\<close>

lemma disconnect_pending: "session s = Some Pending \<Longrightarrow> disconnect s = None"
  by (simp add: disconnect_def)

lemma disconnect_rejected:
  "session s = Some Rejected \<Longrightarrow> disconnect s = Some (([], Some ChannelFailure), s)"
  by (simp add: disconnect_def)

lemma disconnect_completes:
  "session s = None \<or> session s = Some Fulfilled \<Longrightarrow>
     disconnect s =
       Some (((case source s of None \<Rightarrow> [] | Some w \<Rightarrow> [MediaSourceDisconnect]) @
              (case inputProcessor s of None \<Rightarrow> [] | Some w \<Rightarrow> [ProcessorDisconnect]) @
              (case stream s of None \<Rightarrow> [] | Some ts \<Rightarrow> map TrackStop [0..<length ts]) @
              (case inputContext s of None \<Rightarrow> [] | Some c \<Rightarrow> [ContextClose Input]) @
              (case outputContext s of None \<Rightarrow> [] | Some c \<Rightarrow> [ContextClose Output]) @
              map SourceStop (sources s) @
              [StatusChange ''Disconnected''], None),
            s\<lparr>source := map_option (\<lambda>w. Unwired) (source s),
              inputProcessor := map_option (\<lambda>w. Unwired) (inputProcessor s),
              stream := map_option (map (\<lambda>t. Ended)) (stream s),
              inputContext := map_option (\<lambda>c. Closed) (inputContext s),
              outputContext := map_option (\<lambda>c. Closed) (outputContext s),
              sources := []\<rparr>)"
  by (auto simp add: disconnect_def releaseCapture_def stopTracks_def closeContexts_def
      stopSources_def)

lemma disconnect_returned:
  "disconnect s = Some ((es, None), s') \<Longrightarrow> session s = None \<or> session s = Some Fulfilled"
  by (cases "session s"; cases "the (session s)") (auto simp: disconnect_def)

lemma filter_stops: "filter isSourceStop (map SourceStop ns) = map SourceStop ns"
  by (induction ns) simp_all

lemma filter_track_stops: "filter isSourceStop (map TrackStop ns) = []"
  by (induction ns) simp_all

lemma filter_not_track_stops: "filter (\<lambda>e. \<not> isSourceStop e) (map TrackStop ns) = map TrackStop ns"
  by (induction ns) simp_all

lemma filter_not_stops: "filter (\<lambda>e. \<not> isSourceStop e) (map SourceStop ns) = []"
  by (induction ns) simp_all

text \<open>
  C5. Teardown as the code performs it when the channel promise is absent (the session
  never opened a channel) or fulfilled. \<open>disconnect\<close> then returns without raising, and
  performs every one of its steps, in this order and each for the fields that are set:
  disconnect the capture source and the processor, stop every input device track, close
  the input context, close the output context, stop every playback unit in the active
  set, and report \<open>Disconnected\<close>. Afterwards the active set is empty, the capture nodes
  are unwired, every track has ended and both contexts are closed; the channel field and
  the watermark are as before.
\<close>

theorem disconnect_order:
  assumes "session s = None \<or> session s = Some Fulfilled"
  shows "\<exists>s'. disconnect s =
           Some (((case source s of None \<Rightarrow> [] | Some w \<Rightarrow> [MediaSourceDisconnect]) @
                  (case inputProcessor s of None \<Rightarrow> [] | Some w \<Rightarrow> [ProcessorDisconnect]) @
                  (case stream s of None \<Rightarrow> [] | Some ts \<Rightarrow> map TrackStop [0..<length ts]) @
                  (case inputContext s of None \<Rightarrow> [] | Some c \<Rightarrow> [ContextClose Input]) @
                  (case outputContext s of None \<Rightarrow> [] | Some c \<Rightarrow> [ContextClose Output]) @
                  map SourceStop (sources s) @
                  [StatusChange ''Disconnected''], None), s') \<and>
           sources s' = [] \<and>
           source s' = map_option (\<lambda>w. Unwired) (source s) \<and>
           inputProcessor s' = map_option (\<lambda>w. Unwired) (inputProcessor s) \<and>
           stream s' = map_option (map (\<lambda>t. Ended)) (stream s) \<and>
           inputContext s' = map_option (\<lambda>c. Closed) (inputContext s) \<and>
           outputContext s' = map_option (\<lambda>c. Closed) (outputContext s) \<and>
           session s' = session s \<and> nextStartTime s' = nextStartTime s \<and>
           allocated s' = allocated s"
  unfolding disconnect_completes[OF assms] by simp

lemma run_snd:
  "snd (run [] s) = s"
  "snd (run (ev # evs) s) = snd (run evs (snd (step ev s)))"
  by (simp_all add: split_beta)

lemma run_fst:
  "fst (run [] s) = []"
  "fst (run (ev # evs) s) = fst (step ev s) @ fst (run evs (snd (step ev s)))"
  by (simp_all add: split_beta)

lemma playing_session:
  "snd (run [Connect (Some [Live]) Fulfilled, ChannelOpen,
             ChannelMessage 0 \<lparr>audioData = Some ''AAA='', toolCall = None\<rparr>] new_LuminaSession) =
     \<lparr>session = Some Fulfilled, inputContext = Some Running, outputContext = Some Running,
      inputProcessor = Some Wired, source = Some Wired, stream = Some [Live],
      nextStartTime = 1 / 24000, sources = [0], allocated = 1\<rparr>"
proof -
  let ?s1 = "\<lparr>session = Some Fulfilled, inputContext = Some Running,
      outputContext = Some Running, inputProcessor = None, source = None,
      stream = Some [Live], nextStartTime = 0, sources = [], allocated = 0\<rparr>"
  let ?s2 = "\<lparr>session = Some Fulfilled, inputContext = Some Running,
      outputContext = Some Running, inputProcessor = Some Wired, source = Some Wired,
      stream = Some [Live], nextStartTime = 0, sources = [], allocated = 0\<rparr>"
  have 1: "step (Connect (Some [Live]) Fulfilled) new_LuminaSession =
      ([StatusChange ''Connecting...'', ChannelConnect], ?s1)"
    by (simp add: connect_def new_LuminaSession_def)
  have 2: "step ChannelOpen ?s1 = ([StatusChange ''Connected'', GraphConnect], ?s2)"
    by (simp add: onopen_def startAudioInput_def)
  have c: "outputContext ?s2 \<noteq> None" by simp
  have p: "snd (playAudio 0 ''AAA='' ?s2) =
      ?s2\<lparr>nextStartTime := 1 / 24000, sources := [0], allocated := 1\<rparr>"
    using playAudio_scheduled[OF c decode_one_silent_frame, of 0] by (simp add: duration_def)
  have 3: "snd (step (ChannelMessage 0 \<lparr>audioData = Some ''AAA='', toolCall = None\<rparr>) ?s2) =
      ?s2\<lparr>nextStartTime := 1 / 24000, sources := [0], allocated := 1\<rparr>"
    using p by (simp add: split_beta handleMessage_state)
  have "snd (run [Connect (Some [Live]) Fulfilled, ChannelOpen,
             ChannelMessage 0 \<lparr>audioData = Some ''AAA='', toolCall = None\<rparr>] new_LuminaSession) =
      snd (step (ChannelMessage 0 \<lparr>audioData = Some ''AAA='', toolCall = None\<rparr>)
        (snd (step ChannelOpen (snd (step (Connect (Some [Live]) Fulfilled) new_LuminaSession)))))"
    by (simp only: run_snd)
  also have "\<dots> = ?s2\<lparr>nextStartTime := 1 / 24000, sources := [0], allocated := 1\<rparr>"
    by (simp only: 1 2 3 snd_conv)
  finally show ?thesis by simp
qed

theorem disconnect_order_witness:
  "session \<lparr>session = Some Fulfilled, inputContext = Some Running, outputContext = Some Running,
      inputProcessor = Some Wired, source = Some Wired, stream = Some [Live, Live],
      nextStartTime = 1, sources = [4, 7], allocated = 8\<rparr> = Some Fulfilled \<and>
   disconnect \<lparr>session = Some Fulfilled, inputContext = Some Running,
      outputContext = Some Running, inputProcessor = Some Wired, source = Some Wired,
      stream = Some [Live, Live], nextStartTime = 1, sources = [4, 7], allocated = 8\<rparr> =
     Some (([MediaSourceDisconnect, ProcessorDisconnect, TrackStop 0, TrackStop 1,
             ContextClose Input, ContextClose Output, SourceStop 4, SourceStop 7,
             StatusChange ''Disconnected''], None),
           \<lparr>session = Some Fulfilled, inputContext = Some Closed, outputContext = Some Closed,
            inputProcessor = Some Unwired, source = Some Unwired, stream = Some [Ended, Ended],
            nextStartTime = 1, sources = [], allocated = 8\<rparr>)"
proof -
  let ?s = "\<lparr>session = Some Fulfilled, inputContext = Some Running,
      outputContext = Some Running, inputProcessor = Some Wired, source = Some Wired,
      stream = Some [Live, Live], nextStartTime = 1, sources = [4, 7], allocated = 8\<rparr>"
  have a: "session ?s = None \<or> session ?s = Some Fulfilled" by simp
  have u: "[0..<2] = [0, Suc 0]" by (simp add: upt_rec)
  from disconnect_order[OF a] obtain s' where
    d: "disconnect ?s =
          Some (([MediaSourceDisconnect, ProcessorDisconnect, TrackStop 0, TrackStop 1,
             ContextClose Input, ContextClose Output, SourceStop 4, SourceStop 7,
             StatusChange ''Disconnected''], None), s')"
    and f: "sources s' = []" "source s' = Some Unwired" "inputProcessor s' = Some Unwired"
      "stream s' = Some [Ended, Ended]" "inputContext s' = Some Closed"
      "outputContext s' = Some Closed" "session s' = Some Fulfilled" "nextStartTime s' = 1"
      "allocated s' = 8"
    by (auto simp: u)
  have "s' = \<lparr>session = Some Fulfilled, inputContext = Some Closed, outputContext = Some Closed,
            inputProcessor = Some Unwired, source = Some Unwired, stream = Some [Ended, Ended],
            nextStartTime = 1, sources = [], allocated = 8\<rparr>"
    using f by (cases s') simp
  with d show ?thesis by simp
qed

text \<open>
  The claim as written orders the steps differently and makes every step unconditional.
  In a session that is playing one unit, the unit is stopped last, after the tracks and
  both contexts were released; and when the channel promise was rejected, \<open>disconnect\<close>
  raises at its first statement and releases nothing: the device track stays live and
  the contexts stay open.
\<close>

theorem disconnect_order_counterexample:
  "map_option (\<lambda>r. fst (fst r)) (disconnect (snd (run [Connect (Some [Live]) Fulfilled,
       ChannelOpen, ChannelMessage 0 \<lparr>audioData = Some ''AAA='', toolCall = None\<rparr>]
       new_LuminaSession))) =
     Some [MediaSourceDisconnect, ProcessorDisconnect, TrackStop 0, ContextClose Input,
           ContextClose Output, SourceStop 0, StatusChange ''Disconnected''] \<and>
   map_option fst (disconnect (snd (connect (Some [Live]) Rejected new_LuminaSession))) =
     Some ([], Some ChannelFailure) \<and>
   map_option (\<lambda>r. stream (snd r))
       (disconnect (snd (connect (Some [Live]) Rejected new_LuminaSession))) =
     Some (Some [Live]) \<and>
   map_option (\<lambda>r. inputContext (snd r))
       (disconnect (snd (connect (Some [Live]) Rejected new_LuminaSession))) =
     Some (Some Running)"
proof -
  have r: "session (snd (connect (Some [Live]) Rejected new_LuminaSession)) = Some Rejected"
    by (simp add: connect_def)
  have s: "stream (snd (connect (Some [Live]) Rejected new_LuminaSession)) = Some [Live]"
    "inputContext (snd (connect (Some [Live]) Rejected new_LuminaSession)) = Some Running"
    by (simp_all add: connect_def)
  let ?p = "\<lparr>session = Some Fulfilled, inputContext = Some Running, outputContext = Some Running,
      inputProcessor = Some Wired, source = Some Wired, stream = Some [Live],
      nextStartTime = 1 / 24000, sources = [0], allocated = 1\<rparr>"
  have f: "session ?p = None \<or> session ?p = Some Fulfilled" by simp
  show ?thesis
    unfolding playing_session disconnect_rejected[OF r] disconnect_completes[OF f]
    by (simp add: s)
qed

text \<open>
  C6. Disconnecting a session whose channel is open returns without raising and stops
  every unit of the active set, each exactly once and nothing else, whatever was playing
  or still waiting; the active set is empty afterwards.
\<close>

theorem disconnect_stops_all_units:
  assumes "session s = Some Fulfilled"
  shows "\<exists>es s'. disconnect s = Some ((es, None), s') \<and>
           filter isSourceStop es = map SourceStop (sources s) \<and>
           length (filter isSourceStop es) = length (sources s) \<and>
           sources s' = []"
proof -
  from assms have n: "session s = None \<or> session s = Some Fulfilled" by simp
  show ?thesis
    unfolding disconnect_completes[OF n]
    by (simp add: filter_stops filter_track_stops split: option.splits)
qed

theorem disconnect_stops_all_units_witness:
  "session \<lparr>session = Some Fulfilled, inputContext = Some Running, outputContext = Some Running,
      inputProcessor = Some Wired, source = Some Wired, stream = Some [Live],
      nextStartTime = 3, sources = [2, 3, 5], allocated = 6\<rparr> = Some Fulfilled \<and>
   (\<exists>es s'. disconnect \<lparr>session = Some Fulfilled,
      inputContext = Some Running, outputContext = Some Running, inputProcessor = Some Wired,
      source = Some Wired, stream = Some [Live], nextStartTime = 3, sources = [2, 3, 5],
      allocated = 6\<rparr> = Some ((es, None), s') \<and>
      filter isSourceStop es = [SourceStop 2, SourceStop 3, SourceStop 5] \<and>
      sources s' = [])"
proof -
  let ?s = "\<lparr>session = Some Fulfilled, inputContext = Some Running,
      outputContext = Some Running, inputProcessor = Some Wired, source = Some Wired,
      stream = Some [Live], nextStartTime = 3, sources = [2, 3, 5], allocated = 6\<rparr>"
  have a: "session ?s = Some Fulfilled" by simp
  from disconnect_stops_all_units[OF a] show ?thesis by auto
qed

text \<open>
  C8. Disconnecting a session that never connected changes no field and touches no
  device, but still reports \<open>Disconnected\<close> once. Once a first teardown has returned
  without raising, disconnecting again leaves the session exactly as the first teardown
  left it, and repeats every call of the first teardown except the unit stops: the
  release calls on the fields that are set, and the \<open>Disconnected\<close> report.
\<close>

theorem disconnect_idle_and_repeated:
  "disconnect new_LuminaSession =
     Some (([StatusChange ''Disconnected''], None), new_LuminaSession) \<and>
   (disconnect s = Some ((es, None), s') \<longrightarrow>
      disconnect s' = Some ((filter (\<lambda>e. \<not> isSourceStop e) es, None), s'))"
proof -
  have i: "disconnect new_LuminaSession =
      Some (([StatusChange ''Disconnected''], None), new_LuminaSession)"
    by (simp add: disconnect_def releaseCapture_def stopTracks_def closeContexts_def
        stopSources_def new_LuminaSession_def)
  have r: "disconnect s' = Some ((filter (\<lambda>e. \<not> isSourceStop e) es, None), s')"
    if d: "disconnect s = Some ((es, None), s')"
  proof -
    from disconnect_returned[OF d] have n: "session s = None \<or> session s = Some Fulfilled" .
    from d have es: "es =
        (case source s of None \<Rightarrow> [] | Some w \<Rightarrow> [MediaSourceDisconnect]) @
        (case inputProcessor s of None \<Rightarrow> [] | Some w \<Rightarrow> [ProcessorDisconnect]) @
        (case stream s of None \<Rightarrow> [] | Some ts \<Rightarrow> map TrackStop [0..<length ts]) @
        (case inputContext s of None \<Rightarrow> [] | Some c \<Rightarrow> [ContextClose Input]) @
        (case outputContext s of None \<Rightarrow> [] | Some c \<Rightarrow> [ContextClose Output]) @
        map SourceStop (sources s) @ [StatusChange ''Disconnected'']"
      and s': "s' = s\<lparr>source := map_option (\<lambda>w. Unwired) (source s),
              inputProcessor := map_option (\<lambda>w. Unwired) (inputProcessor s),
              stream := map_option (map (\<lambda>t. Ended)) (stream s),
              inputContext := map_option (\<lambda>c. Closed) (inputContext s),
              outputContext := map_option (\<lambda>c. Closed) (outputContext s),
              sources := []\<rparr>"
      unfolding disconnect_completes[OF n] by simp_all
    from n have n': "session s' = None \<or> session s' = Some Fulfilled" by (simp add: s')
    show ?thesis
      unfolding disconnect_completes[OF n'] unfolding s' es
      by (simp add: option.map_comp comp_def filter_not_track_stops filter_not_stops
          split: option.splits)
  qed
  from i r show ?thesis by blast
qed

theorem disconnect_idle_and_repeated_witness:
  "disconnect \<lparr>session = Some Fulfilled, inputContext = Some Running,
      outputContext = Some Running, inputProcessor = Some Wired, source = Some Wired,
      stream = Some [Live], nextStartTime = 2, sources = [0], allocated = 5\<rparr> =
     Some (([MediaSourceDisconnect, ProcessorDisconnect, TrackStop 0, ContextClose Input,
             ContextClose Output, SourceStop 0, StatusChange ''Disconnected''], None),
           \<lparr>session = Some Fulfilled, inputContext = Some Closed, outputContext = Some Closed,
            inputProcessor = Some Unwired, source = Some Unwired, stream = Some [Ended],
            nextStartTime = 2, sources = [], allocated = 5\<rparr>) \<and>
   disconnect \<lparr>session = Some Fulfilled, inputContext = Some Closed, outputContext = Some Closed,
      inputProcessor = Some Unwired, source = Some Unwired, stream = Some [Ended],
      nextStartTime = 2, sources = [], allocated = 5\<rparr> =
     Some (([MediaSourceDisconnect, ProcessorDisconnect, TrackStop 0, ContextClose Input,
             ContextClose Output, StatusChange ''Disconnected''], None),
           \<lparr>session = Some Fulfilled, inputContext = Some Closed, outputContext = Some Closed,
            inputProcessor = Some Unwired, source = Some Unwired, stream = Some [Ended],
            nextStartTime = 2, sources = [], allocated = 5\<rparr>)"
proof -
  let ?s = "\<lparr>session = Some Fulfilled, inputContext = Some Running,
      outputContext = Some Running, inputProcessor = Some Wired, source = Some Wired,
      stream = Some [Live], nextStartTime = 2, sources = [0], allocated = 5\<rparr>"
  let ?s' = "\<lparr>session = Some Fulfilled, inputContext = Some Closed, outputContext = Some Closed,
      inputProcessor = Some Unwired, source = Some Unwired, stream = Some [Ended],
      nextStartTime = 2, sources = [], allocated = 5\<rparr>"
  let ?es = "[MediaSourceDisconnect, ProcessorDisconnect, TrackStop 0, ContextClose Input,
      ContextClose Output, SourceStop 0, StatusChange ''Disconnected'']"
  have n: "session ?s = None \<or> session ?s = Some Fulfilled" by simp
  have d: "disconnect ?s = Some ((?es, None), ?s')"
    unfolding disconnect_completes[OF n] by simp
  from disconnect_idle_and_repeated[of ?s ?es ?s'] d
  have "disconnect ?s' = Some ((filter (\<lambda>e. \<not> isSourceStop e) ?es, None), ?s')" by blast
  with d show ?thesis by simp
qed

text \<open>
  The claim as written calls both cases a no-op. The status callback is invoked even on
  a session that never connected.
\<close>

theorem disconnect_idle_counterexample:
  "map_option (\<lambda>r. fst (fst r)) (disconnect new_LuminaSession) =
     Some [StatusChange ''Disconnected''] \<and>
   map_option (\<lambda>r. fst (fst r)) (disconnect new_LuminaSession) \<noteq> Some []"
  by (simp add: disconnect_def releaseCapture_def stopTracks_def closeContexts_def
      stopSources_def new_LuminaSession_def)

section \<open>Claims about the status callback\<close>

lemma status_loop: "StatusChange str \<notin> set (fst (fst (functionCalls_loop calls)))"
  by (induction calls) (auto simp: split_beta split: option.splits)

lemma status_playAudio: "StatusChange str \<notin> set (fst (fst (playAudio now b s)))"
proof (cases "outputContext s = None")
  case True
  then show ?thesis by (simp add: playAudio_no_context)
next
  case False
  then show ?thesis
    by (cases "decodeAudioData b") (simp_all add: playAudio_failed playAudio_scheduled)
qed

lemma status_thenCall: "StatusChange str \<notin> set (thenCall p (map toolResponse fcs))"
  by (cases p) (auto simp: thenCall_def toolResponse_def)

lemma status_handleToolCall: "StatusChange str \<notin> set (fst (fst (handleToolCall m)))"
  by (simp add: handleToolCall_def status_loop split: option.splits)

lemma status_handleMessage: "StatusChange str \<notin> set (fst (fst (handleMessage now m p s)))"
  by (simp add: handleMessage_def split_beta Let_def status_handleToolCall status_playAudio
      status_thenCall split: option.splits)

lemma status_disconnect:
  "disconnect s = Some ((es, err), s') \<Longrightarrow> StatusChange str \<in> set es \<Longrightarrow>
     str = ''Disconnected''"
  by (auto simp: disconnect_def releaseCapture_def stopTracks_def closeContexts_def
      stopSources_def split: if_splits option.splits)

lemma status_connect:
  "StatusChange str \<in> set (fst (fst (connect media p s))) \<Longrightarrow> str = ''Connecting...''"
  by (auto simp: connect_def Let_def split: option.splits)

lemma status_step:
  assumes "StatusChange str \<in> set (fst (step ev s))"
  shows "str \<in> {''Connecting...'', ''Connected'', ''Disconnected'', ''Error''}"
proof (cases ev)
  case (Connect media p)
  with assms status_connect[of str media p s] show ?thesis by (simp add: split_beta)
next
  case Disconnect
  with assms show ?thesis
    by (cases "disconnect s") (auto dest: status_disconnect)
next
  case (SourceEnded node)
  with assms show ?thesis by simp
next
  case ChannelOpen
  with assms show ?thesis
    by (auto simp: onopen_def startAudioInput_def split: option.splits if_splits)
next
  case (ChannelMessage now m)
  with assms status_handleMessage[of str now m _ s] show ?thesis
    by (auto simp: split_beta split: option.splits)
next
  case ChannelClose
  with assms show ?thesis by (auto simp: onclose_def split: option.splits)
next
  case (ChannelError e)
  with assms show ?thesis by (auto simp: onerror_def split: option.splits)
next
  case (AudioProcess inputData)
  with assms show ?thesis
    by (auto simp: onaudioprocess_def thenCall_def split: option.splits promise.splits)
qed

text \<open>
  C9. Over every sequence of events from every session, each invocation of the status
  callback passes one of the four strings \<open>Connecting...\<close>, \<open>Connected\<close>,
  \<open>Disconnected\<close>, \<open>Error\<close>.
\<close>

theorem status_strings:
  "StatusChange str \<in> set (fst (run evs s)) \<Longrightarrow>
     str \<in> {''Connecting...'', ''Connected'', ''Disconnected'', ''Error''}"
proof (induction evs arbitrary: s)
  case Nil
  then show ?case by simp
next
  case (Cons ev evs)
  from Cons.prems
  have "StatusChange str \<in> set (fst (step ev s)) \<or>
        StatusChange str \<in> set (fst (run evs (snd (step ev s))))"
    by (simp only: run_fst set_append Un_iff)
  then show ?case
  proof
    assume "StatusChange str \<in> set (fst (step ev s))"
    then show ?thesis by (rule status_step)
  next
    assume "StatusChange str \<in> set (fst (run evs (snd (step ev s))))"
    then show ?thesis by (rule Cons.IH)
  qed
qed

theorem status_strings_witness:
  "StatusChange ''Error'' \<in> set (fst (run [Connect (Some [Live]) Fulfilled, ChannelOpen,
       ChannelError ChannelFailure, Disconnect] new_LuminaSession)) \<and>
   ''Error'' \<in> {''Connecting...'', ''Connected'', ''Disconnected'', ''Error''}"
proof -
  let ?evs = "[Connect (Some [Live]) Fulfilled, ChannelOpen, ChannelError ChannelFailure, Disconnect]"
  have s: "session (snd (step ChannelOpen (snd (step (Connect (Some [Live]) Fulfilled) new_LuminaSession)))) =
      Some Fulfilled"
    by (simp add: connect_def onopen_def startAudioInput_def new_LuminaSession_def)
  have "StatusChange ''Error'' \<in> set (fst (step (ChannelError ChannelFailure)
      (snd (step ChannelOpen (snd (step (Connect (Some [Live]) Fulfilled) new_LuminaSession))))))"
    using s by (simp add: onerror_def)
  then have m: "StatusChange ''Error'' \<in> set (fst (run ?evs new_LuminaSession))"
    by (simp only: run_fst run_snd set_append Un_iff simp_thms)
  from status_strings[OF m] m show ?thesis by blast
qed

text \<open>
  The claim as written lists \<open>Connecting\<close>. The string \<open>connect\<close> passes is
  \<open>Connecting...\<close>, with the ellipsis.
\<close>

theorem status_connecting_counterexample:
  "StatusChange ''Connecting...'' \<in>
     set (fst (run [Connect (Some [Live]) Fulfilled] new_LuminaSession)) \<and>
   ''Connecting...'' \<notin> {''Connecting'', ''Connected'', ''Disconnected'', ''Error''}"
  by (simp add: connect_def split_beta)

end
